theory Spec2Isabelle
  imports Main "HOL-Library.Word"
begin

section \<open>The reply router of reactive-commons-go (reply_router.go)\<close>

text \<open>
  The router keeps a table from correlation ids to pending replies. Three pieces of code
  touch it: \<open>addReplyToListen\<close> (a caller registers a wait), the consumer loop started by
  \<open>listen\<close> (a reply arrives from the broker) and \<open>cleanReply\<close> (the deadline timer of an
  entry has fired). Go channels and timers are modelled as a small store: a channel is
  the list of values handed over on it plus its closed flag, a timer is its state, its
  duration and the correlation id captured by its callback. A send is taken as a
  completed hand-over to the receiver; a send on a closed channel and a second close are
  the panics Go raises. Each of the three operations runs as one step, in any order.
\<close>

subsection \<open>Data\<close>

type_synonym byte = "8 word"

text \<open>\<open>time.Duration\<close>: a signed 64-bit count of nanoseconds.\<close>

type_synonym Duration = "64 word"

definition Millisecond :: Duration where
  "Millisecond = 1000000"

text \<open>A value of an AMQP header table (\<open>interface{}\<close> in the source).\<close>

datatype amqp_value = VString string | VInt int | VBool bool | VNil

record Delivery =
  CorrelationId :: string
  Headers :: "(string \<times> amqp_value) list"
  Body :: "byte list"

datatype error = TimeoutReplyError string | AmqpError string

text \<open>\<open>type reply struct\<close>; a nil \<open>data\<close> is the empty list, a nil \<open>err\<close> is \<open>None\<close>.\<close>

record reply =
  query :: string
  data :: "byte list"
  err :: "error option"

text \<open>\<open>type replyStr struct\<close>: the channel and the timer are references into the store.\<close>

record replyStr =
  rs_query :: string
  rs_ch :: nat
  rs_timer :: nat

text \<open>
  \<open>type replyRouter struct\<close>. The field \<open>ch\<close> (the broker channel) is only written by
  \<open>listen\<close> and is left to the list of broker calls below.
\<close>

record replyRouter =
  router_id :: string
  repliesMap :: "string \<rightharpoonup> replyStr"
  timeout :: Duration

record chan =
  sent :: "reply list"
  closed :: bool

datatype timer_state = TActive | TFired | TStopped | TDone

record Timer =
  t_state :: timer_state
  t_d :: Duration
  t_f :: string

datatype panic = SendOnClosedChannel | CloseOfClosedChannel

record world =
  r :: replyRouter
  chans :: "nat \<Rightarrow> chan"
  next_chan :: nat
  timers :: "nat \<Rightarrow> Timer"
  next_timer :: nat
  acks :: "Delivery list"

subsection \<open>Channels, timers and acknowledgements\<close>

text \<open>\<open>make(chan *reply)\<close>: a channel nobody holds yet.\<close>

definition make_chan :: "world \<Rightarrow> nat \<times> world" where
  "make_chan w =
     (next_chan w,
      w\<lparr>chans := (chans w)(next_chan w := \<lparr>sent = [], closed = False\<rparr>),
        next_chan := Suc (next_chan w)\<rparr>)"

definition chan_send :: "nat \<Rightarrow> reply \<Rightarrow> world \<Rightarrow> panic + world" where
  "chan_send c v w =
     (if closed (chans w c) then Inl SendOnClosedChannel
      else Inr (w\<lparr>chans := (chans w)(c := (chans w c)\<lparr>sent := sent (chans w c) @ [v]\<rparr>)\<rparr>))"

definition chan_close :: "nat \<Rightarrow> world \<Rightarrow> panic + world" where
  "chan_close c w =
     (if closed (chans w c) then Inl CloseOfClosedChannel
      else Inr (w\<lparr>chans := (chans w)(c := (chans w c)\<lparr>closed := True\<rparr>)\<rparr>))"

text \<open>\<open>time.AfterFunc(d, func() { r.cleanReply(correlationId) })\<close>.\<close>

definition AfterFunc :: "Duration \<Rightarrow> string \<Rightarrow> world \<Rightarrow> nat \<times> world" where
  "AfterFunc d correlationId w =
     (next_timer w,
      w\<lparr>timers := (timers w)(next_timer w := \<lparr>t_state = TActive, t_d = d, t_f = correlationId\<rparr>),
        next_timer := Suc (next_timer w)\<rparr>)"

text \<open>
  \<open>timer.Stop()\<close>: true when the call stops the timer, false when the timer has already
  expired (its function has been started) or has been stopped.
\<close>

definition timer_Stop :: "nat \<Rightarrow> world \<Rightarrow> bool \<times> world" where
  "timer_Stop t w =
     (if t_state (timers w t) = TActive
      then (True, w\<lparr>timers := (timers w)(t := (timers w t)\<lparr>t_state := TStopped\<rparr>)\<rparr>)
      else (False, w))"

text \<open>\<open>m.Ack(false)\<close>, recorded in the order of the calls.\<close>

definition Ack :: "Delivery \<Rightarrow> world \<Rightarrow> world" where
  "Ack m w = w\<lparr>acks := acks w @ [m]\<rparr>"

definition map_delete :: "string \<Rightarrow> world \<Rightarrow> world" where
  "map_delete k w = w\<lparr>r := (r w)\<lparr>repliesMap := (repliesMap (r w))(k := None)\<rparr>\<rparr>"

definition map_store :: "string \<Rightarrow> replyStr \<Rightarrow> world \<Rightarrow> world" where
  "map_store k v w = w\<lparr>r := (r w)\<lparr>repliesMap := (repliesMap (r w))(k \<mapsto> v)\<rparr>\<rparr>"

subsection \<open>newReplyRouter\<close>

text \<open>
  The UUID drawn by \<open>uuid.NewString()\<close> is an argument. The result is the list of
  warnings logged and the router.
\<close>

definition newReplyRouter :: "string \<Rightarrow> string \<Rightarrow> Duration \<Rightarrow> string list \<times> replyRouter" where
  "newReplyRouter appName uuid tmo =
     ((if tmo <s Millisecond * 500
       then [''Be careful. Your timeout is too short, please consider give enough timeout to your replies.'']
       else []),
      \<lparr>router_id = appName @ ''.'' @ uuid, repliesMap = Map.empty, timeout = tmo\<rparr>)"

subsection \<open>listen: the broker set-up\<close>

datatype broker_call =
    QueueDeclare string bool bool bool bool
  | QueueBind string string string bool
  | Qos nat nat bool
  | Consume string string bool bool bool bool

text \<open>What the broker answers to each call of \<open>listen\<close>.\<close>

record broker =
  on_Channel :: "error option"
  on_QueueDeclare :: "string \<Rightarrow> error + string"
  on_QueueBind :: "error option"
  on_Qos :: "error option"
  on_Consume :: "error option"

datatype listen_result = Fatal string | Returned "error option"

text \<open>
  Modelled from the spec: \<open>failOnError\<close> is not among the source files; a connection
  error is fatal at start-up, so a non-nil error ends the process with the message.
\<close>

definition failOnError :: "error option \<Rightarrow> string \<Rightarrow> string option" where
  "failOnError e m = (case e of None \<Rightarrow> None | Some _ \<Rightarrow> Some m)"

text \<open>
  The calls \<open>listen\<close> makes on the broker, in order, and how it ends; \<open>Returned None\<close> is
  the case in which the consumer loop has been started. The name of the shared reply
  exchange, \<open>globalReplyExchange\<close>, is declared outside the source files and is an
  argument.
\<close>

definition listen :: "string \<Rightarrow> broker \<Rightarrow> replyRouter \<Rightarrow> broker_call list \<times> listen_result" where
  "listen globalReplyExchange b rt =
     (case failOnError (on_Channel b) ''Failed to open a reply channel'' of
        Some m \<Rightarrow> ([], Fatal m)
      | None \<Rightarrow>
         (let c1 = QueueDeclare (router_id rt) True False True False in
          case on_QueueDeclare b (router_id rt) of
            Inl e \<Rightarrow> ([c1], Returned (Some e))
          | Inr queueName \<Rightarrow>
             (let c2 = QueueBind queueName (router_id rt) globalReplyExchange False in
              case on_QueueBind b of
                Some e \<Rightarrow> ([c1, c2], Returned (Some e))
              | None \<Rightarrow>
                 (let c3 = Qos 15 0 False in
                  case on_Qos b of
                    Some e \<Rightarrow> ([c1, c2, c3], Returned (Some e))
                  | None \<Rightarrow>
                     (let c4 = Consume queueName (router_id rt) True False False False in
                      case on_Consume b of
                        Some e \<Rightarrow> ([c1, c2, c3, c4], Returned (Some e))
                      | None \<Rightarrow> ([c1, c2, c3, c4], Returned None))))))"

subsection \<open>The consumer loop, addReplyToListen and cleanReply\<close>

text \<open>
  Lines 118 to 136 of the loop body: the lookup under \<open>corrId\<close> and what follows. There is
  no \<open>else\<close> branch: without an entry the iteration just ends.
\<close>

definition listen_route :: "string \<Rightarrow> Delivery \<Rightarrow> world \<Rightarrow> panic + world" where
  "listen_route corrId m w =
     (case repliesMap (r w) corrId of
        None \<Rightarrow> Inr w
      | Some replyStr \<Rightarrow>
         (case timer_Stop (rs_timer replyStr) w of
            (False, w1) \<Rightarrow> Inr (Ack m w1)
          | (True, w1) \<Rightarrow>
             (case chan_send (rs_ch replyStr)
                     \<lparr>query = rs_query replyStr, data = Body m, err = None\<rparr> w1 of
                Inl p \<Rightarrow> Inl p
              | Inr w2 \<Rightarrow>
                 (case chan_close (rs_ch replyStr) w2 of
                    Inl p \<Rightarrow> Inl p
                  | Inr w3 \<Rightarrow> Inr (Ack m (map_delete corrId w3))))))"

text \<open>
  One iteration of \<open>for msg := range msgs\<close>. The \<open>:=\<close> of line 111 declares a second
  \<open>corrId\<close> (here \<open>corrId'\<close>) that lives only inside the \<open>if\<close> block, so the lookup of line
  118 reads the first one. The name of the header, \<open>correlationIDHeader\<close>, is declared
  outside the source files and is an argument.
\<close>

definition listen_body :: "string \<Rightarrow> Delivery \<Rightarrow> world \<Rightarrow> panic + world" where
  "listen_body correlationIDHeader msg w =
     (let m = msg; corrId = CorrelationId msg in
      if corrId = ''''
      then (case map_of (Headers msg) correlationIDHeader of
              None \<Rightarrow> Inr (Ack m w)
            | Some corrId' \<Rightarrow>
                if corrId' = VString '''' then Inr (Ack m w)
                else listen_route corrId m w)
      else listen_route corrId m w)"

definition addReplyToListen :: "string \<Rightarrow> string \<Rightarrow> world \<Rightarrow> nat \<times> world" where
  "addReplyToListen q correlationId w =
     (case make_chan w of
        (ch, w1) \<Rightarrow>
          (case AfterFunc (timeout (r w1)) correlationId w1 of
             (timer, w2) \<Rightarrow>
               (ch, map_store correlationId \<lparr>rs_query = q, rs_ch = ch, rs_timer = timer\<rparr> w2)))"

definition cleanReply :: "string \<Rightarrow> world \<Rightarrow> panic + world" where
  "cleanReply correlationId w =
     (case repliesMap (r w) correlationId of
        None \<Rightarrow> Inr w
      | Some replyStr \<Rightarrow>
         (case chan_send (rs_ch replyStr)
                 \<lparr>query = '''', data = [],
                  err = Some (TimeoutReplyError (''timeout while waiting for reply '' @ rs_query replyStr))\<rparr> w of
            Inl p \<Rightarrow> Inl p
          | Inr w1 \<Rightarrow>
             (case chan_close (rs_ch replyStr) w1 of
                Inl p \<Rightarrow> Inl p
              | Inr w2 \<Rightarrow> Inr (map_delete correlationId w2))))"

subsection \<open>Steps of the router\<close>

text \<open>The timer expires: from now on \<open>Stop\<close> returns false; its function is yet to run.\<close>

definition timer_fire :: "nat \<Rightarrow> world \<Rightarrow> world" where
  "timer_fire t w =
     (if t < next_timer w \<and> t_state (timers w t) = TActive
      then w\<lparr>timers := (timers w)(t := (timers w t)\<lparr>t_state := TFired\<rparr>)\<rparr>
      else w)"

text \<open>The function of an expired timer runs: \<open>r.cleanReply(correlationId)\<close>.\<close>

definition timer_run :: "nat \<Rightarrow> world \<Rightarrow> panic + world" where
  "timer_run t w =
     (if t < next_timer w \<and> t_state (timers w t) = TFired
      then cleanReply (t_f (timers w t))
             (w\<lparr>timers := (timers w)(t := (timers w t)\<lparr>t_state := TDone\<rparr>)\<rparr>)
      else Inr w)"

datatype event =
    Register string string
  | Deliver Delivery
  | Fire nat
  | Callback nat

definition step :: "string \<Rightarrow> event \<Rightarrow> world \<Rightarrow> panic + world" where
  "step hdr e w =
     (case e of
        Register q correlationId \<Rightarrow> Inr (snd (addReplyToListen q correlationId w))
      | Deliver m \<Rightarrow> listen_body hdr m w
      | Fire t \<Rightarrow> Inr (timer_fire t w)
      | Callback t \<Rightarrow> timer_run t w)"

fun run :: "string \<Rightarrow> event list \<Rightarrow> world \<Rightarrow> panic + world" where
  "run hdr [] w = Inr w"
| "run hdr (e # es) w = (case step hdr e w of Inl p \<Rightarrow> Inl p | Inr w' \<Rightarrow> run hdr es w')"

text \<open>The world right after \<open>newReplyRouter\<close>: no channel and no timer yet.\<close>

definition init_world :: "replyRouter \<Rightarrow> world" where
  "init_world rt =
     \<lparr>r = rt,
      chans = (\<lambda>_. \<lparr>sent = [], closed = False\<rparr>),
      next_chan = 0,
      timers = (\<lambda>_. \<lparr>t_state = TStopped, t_d = 0, t_f = ''''\<rparr>),
      next_timer = 0,
      acks = []\<rparr>"

definition new_world :: "string \<Rightarrow> string \<Rightarrow> Duration \<Rightarrow> world" where
  "new_world appName uuid tmo = init_world (snd (newReplyRouter appName uuid tmo))"

subsection \<open>Notions used by the properties\<close>

text \<open>The value \<open>cleanReply\<close> sends for an entry with query type \<open>q\<close>.\<close>

definition timeout_reply :: "string \<Rightarrow> reply" where
  "timeout_reply q =
     \<lparr>query = '''', data = [],
      err = Some (TimeoutReplyError (''timeout while waiting for reply '' @ q))\<rparr>"

text \<open>
  The common effect of the two paths that satisfy an entry: the value goes out on the
  entry's channel, the channel is closed and the key leaves the table.
\<close>

definition settle :: "string \<Rightarrow> replyStr \<Rightarrow> reply \<Rightarrow> world \<Rightarrow> world" where
  "settle k e v w =
     w\<lparr>chans := (chans w)(rs_ch e := (chans w (rs_ch e))\<lparr>sent := sent (chans w (rs_ch e)) @ [v], closed := True\<rparr>),
       r := (r w)\<lparr>repliesMap := (repliesMap (r w))(k := None)\<rparr>\<rparr>"

text \<open>
  What holds of every world the router can reach: the entries of the table refer to
  allocated channels and timers, their channels are open and unused, no two keys share a
  channel or a timer, and a channel carries at most one value, which it carries exactly
  when it is closed.
\<close>

definition wf_world :: "world \<Rightarrow> bool" where
  "wf_world w \<longleftrightarrow>
     (\<forall>k e. repliesMap (r w) k = Some e \<longrightarrow>
        rs_ch e < next_chan w \<and> rs_timer e < next_timer w \<and>
        \<not> closed (chans w (rs_ch e)) \<and> sent (chans w (rs_ch e)) = []) \<and>
     (\<forall>k k' e e'. repliesMap (r w) k = Some e \<longrightarrow> repliesMap (r w) k' = Some e' \<longrightarrow>
        rs_ch e = rs_ch e' \<or> rs_timer e = rs_timer e' \<longrightarrow> k = k') \<and>
     (\<forall>c. length (sent (chans w c)) \<le> 1 \<and> (closed (chans w c) \<longleftrightarrow> sent (chans w c) \<noteq> []))"

text \<open>A delivery the loop does not drop as malformed: it reaches the lookup of line 118.\<close>

definition has_corrId :: "string \<Rightarrow> Delivery \<Rightarrow> bool" where
  "has_corrId hdr m \<longleftrightarrow>
     CorrelationId m \<noteq> '''' \<or>
     (case map_of (Headers m) hdr of None \<Rightarrow> False | Some v \<Rightarrow> v \<noteq> VString '''')"

text \<open>
  A channel and a timer that no entry of the table refers to, both allocated earlier.
\<close>

definition idle :: "nat \<Rightarrow> nat \<Rightarrow> world \<Rightarrow> bool" where
  "idle c t w \<longleftrightarrow>
     c < next_chan w \<and> t < next_timer w \<and>
     (\<forall>k e. repliesMap (r w) k = Some e \<longrightarrow> rs_ch e \<noteq> c \<and> rs_timer e \<noteq> t)"

text \<open>
  The two values an entry with query type \<open>q\<close> can receive: a reply with a nil error
  carrying \<open>q\<close>, or the timeout error for \<open>q\<close>.
\<close>

definition outcome :: "string \<Rightarrow> reply \<Rightarrow> bool" where
  "outcome q v \<longleftrightarrow> (query v = q \<and> err v = None) \<or> v = timeout_reply q"

text \<open>
  The two stages of one registration \<open>(q, cid)\<close> with channel \<open>c\<close> and timer \<open>t\<close>: the
  entry is in the table and its timer has neither been stopped nor run its function; or
  no entry refers to its channel or timer any more and the channel is closed with one
  outcome on it.
\<close>

definition pending :: "string \<Rightarrow> string \<Rightarrow> nat \<Rightarrow> nat \<Rightarrow> world \<Rightarrow> bool" where
  "pending q cid c t w \<longleftrightarrow>
     repliesMap (r w) cid = Some \<lparr>rs_query = q, rs_ch = c, rs_timer = t\<rparr> \<and>
     (t_state (timers w t) = TActive \<or> t_state (timers w t) = TFired) \<and>
     t_f (timers w t) = cid"

definition settled :: "string \<Rightarrow> nat \<Rightarrow> nat \<Rightarrow> world \<Rightarrow> bool" where
  "settled q c t w \<longleftrightarrow>
     idle c t w \<and> closed (chans w c) \<and> (\<exists>v. sent (chans w c) = [v] \<and> outcome q v)"


text \<open>Example inputs for the concrete instances below.\<close>

definition example_hdr :: string where
  "example_hdr = ''x-correlation-id''"

definition example_world :: "event list \<Rightarrow> world" where
  "example_world es = projr (run example_hdr es (new_world ''app'' ''uuid'' 1000000000))"

section \<open>Properties\<close>

subsection \<open>The operations in normal form\<close>

lemmas op_defs =
  step_def addReplyToListen_def make_chan_def AfterFunc_def map_store_def map_delete_def
  timer_fire_def timer_run_def cleanReply_def chan_send_def chan_close_def listen_body_def
  listen_route_def timer_Stop_def Ack_def init_world_def newReplyRouter_def new_world_def
  example_hdr_def example_world_def timeout_reply_def has_corrId_def Let_def

lemma cleanReply_None: "repliesMap (r w) k = None \<Longrightarrow> cleanReply k w = Inr w"
  by (simp add: cleanReply_def)

lemma cleanReply_Some:
  "repliesMap (r w) k = Some e \<Longrightarrow> \<not> closed (chans w (rs_ch e)) \<Longrightarrow>
   cleanReply k w = Inr (settle k e (timeout_reply (rs_query e)) w)"
  by (simp add: cleanReply_def chan_send_def chan_close_def map_delete_def timeout_reply_def settle_def)

lemma addReplyToListen_eq:
  "addReplyToListen q k w =
     (next_chan w,
      w\<lparr>chans := (chans w)(next_chan w := \<lparr>sent = [], closed = False\<rparr>),
        next_chan := Suc (next_chan w),
        timers := (timers w)(next_timer w := \<lparr>t_state = TActive, t_d = timeout (r w), t_f = k\<rparr>),
        next_timer := Suc (next_timer w),
        r := (r w)\<lparr>repliesMap := (repliesMap (r w))(k \<mapsto> \<lparr>rs_query = q, rs_ch = next_chan w, rs_timer = next_timer w\<rparr>)\<rparr>\<rparr>)"
  by (simp add: addReplyToListen_def make_chan_def AfterFunc_def map_store_def)

lemma listen_route_None: "repliesMap (r w) k = None \<Longrightarrow> listen_route k m w = Inr w"
  by (simp add: listen_route_def)

lemma listen_route_late:
  "repliesMap (r w) k = Some e \<Longrightarrow> t_state (timers w (rs_timer e)) \<noteq> TActive \<Longrightarrow>
   listen_route k m w = Inr (Ack m w)"
  by (simp add: listen_route_def timer_Stop_def)

lemma listen_route_deliver:
  "repliesMap (r w) k = Some e \<Longrightarrow> t_state (timers w (rs_timer e)) = TActive \<Longrightarrow>
   \<not> closed (chans w (rs_ch e)) \<Longrightarrow>
   listen_route k m w =
     Inr (Ack m (settle k e \<lparr>query = rs_query e, data = Body m, err = None\<rparr>
            (w\<lparr>timers := (timers w)(rs_timer e := (timers w (rs_timer e))\<lparr>t_state := TStopped\<rparr>)\<rparr>)))"
  by (simp add: listen_route_def timer_Stop_def Ack_def chan_send_def chan_close_def map_delete_def settle_def)

lemma listen_body_route:
  "has_corrId hdr m \<Longrightarrow> listen_body hdr m w = listen_route (CorrelationId m) m w"
  by (auto simp: listen_body_def has_corrId_def Let_def split: option.splits)

subsection \<open>Every reachable world is well formed, and no step panics\<close>

lemma wf_entry:
  "wf_world w \<Longrightarrow> repliesMap (r w) k = Some e \<Longrightarrow>
   rs_ch e < next_chan w \<and> rs_timer e < next_timer w \<and>
   \<not> closed (chans w (rs_ch e)) \<and> sent (chans w (rs_ch e)) = []"
  unfolding wf_world_def by blast

lemma wf_inj:
  "wf_world w \<Longrightarrow> repliesMap (r w) k = Some e \<Longrightarrow> repliesMap (r w) k' = Some e' \<Longrightarrow>
   rs_ch e = rs_ch e' \<or> rs_timer e = rs_timer e' \<Longrightarrow> k = k'"
  unfolding wf_world_def by blast

lemma wf_chan:
  "wf_world w \<Longrightarrow>
   length (sent (chans w c)) \<le> 1 \<and> (closed (chans w c) \<longleftrightarrow> sent (chans w c) \<noteq> [])"
  unfolding wf_world_def by blast

lemma wf_new: "wf_world (new_world a u t)"
  by (simp add: wf_world_def init_world_def new_world_def newReplyRouter_def)

lemma wf_timers [simp]: "wf_world (w\<lparr>timers := T\<rparr>) = wf_world w"
  by (simp add: wf_world_def)

lemma wf_Ack [simp]: "wf_world (Ack m w) = wf_world w"
  by (simp add: wf_world_def Ack_def)

lemma wf_add:
  assumes wf: "wf_world w"
  shows "wf_world (snd (addReplyToListen q k w))"
proof -
  let ?w = "snd (addReplyToListen q k w)"
  have 1: "rs_ch e < next_chan ?w \<and> rs_timer e < next_timer ?w \<and>
           \<not> closed (chans ?w (rs_ch e)) \<and> sent (chans ?w (rs_ch e)) = []"
    if "repliesMap (r ?w) k' = Some e" for k' e
    using that wf_entry [OF wf, of k' e]
    by (auto simp: addReplyToListen_eq split: if_splits)
  have 2: "k1 = k2"
    if "repliesMap (r ?w) k1 = Some e1" "repliesMap (r ?w) k2 = Some e2"
       "rs_ch e1 = rs_ch e2 \<or> rs_timer e1 = rs_timer e2" for k1 k2 e1 e2
    using that wf_entry [OF wf, of k1 e1] wf_entry [OF wf, of k2 e2] wf_inj [OF wf, of k1 e1 k2 e2]
    by (auto simp: addReplyToListen_eq split: if_splits)
  have 3: "length (sent (chans ?w c)) \<le> 1 \<and> (closed (chans ?w c) \<longleftrightarrow> sent (chans ?w c) \<noteq> [])" for c
    using wf_chan [OF wf, of c] by (simp add: addReplyToListen_eq)
  show ?thesis
    unfolding wf_world_def using 1 2 3 by blast
qed

lemma wf_settle:
  assumes wf: "wf_world w" and Some: "repliesMap (r w) k = Some e"
  shows "wf_world (settle k e v w)"
proof -
  note E = wf_entry [OF wf Some]
  let ?w = "settle k e v w"
  have 1: "rs_ch e' < next_chan ?w \<and> rs_timer e' < next_timer ?w \<and>
           \<not> closed (chans ?w (rs_ch e')) \<and> sent (chans ?w (rs_ch e')) = []"
    if "repliesMap (r ?w) k' = Some e'" for k' e'
    using that wf_entry [OF wf, of k' e'] wf_inj [OF wf Some, of k' e']
    by (auto simp: settle_def split: if_splits)
  have 2: "k1 = k2"
    if "repliesMap (r ?w) k1 = Some e1" "repliesMap (r ?w) k2 = Some e2"
       "rs_ch e1 = rs_ch e2 \<or> rs_timer e1 = rs_timer e2" for k1 k2 e1 e2
    using that wf_inj [OF wf, of k1 e1 k2 e2]
    by (auto simp: settle_def split: if_splits)
  have 3: "length (sent (chans ?w c)) \<le> 1 \<and> (closed (chans ?w c) \<longleftrightarrow> sent (chans ?w c) \<noteq> [])" for c
    using wf_chan [OF wf, of c] E by (simp add: settle_def)
  show ?thesis
    unfolding wf_world_def using 1 2 3 by blast
qed

lemma wf_clean:
  assumes wf: "wf_world w"
  shows "\<exists>w'. cleanReply k w = Inr w' \<and> wf_world w'"
proof (cases "repliesMap (r w) k")
  case None
  with wf show ?thesis by (simp add: cleanReply_None)
next
  case (Some e)
  show ?thesis
    using cleanReply_Some [OF Some] wf_entry [OF wf Some] wf_settle [OF wf Some] by simp
qed

lemma wf_route:
  assumes wf: "wf_world w"
  shows "\<exists>w'. listen_route k m w = Inr w' \<and> wf_world w'"
proof (cases "repliesMap (r w) k")
  case None
  with wf show ?thesis by (simp add: listen_route_None)
next
  case (Some e)
  show ?thesis
  proof (cases "t_state (timers w (rs_timer e)) = TActive")
    case False
    with wf Some show ?thesis by (simp add: listen_route_late)
  next
    case True
    let ?w = "w\<lparr>timers := (timers w)(rs_timer e := (timers w (rs_timer e))\<lparr>t_state := TStopped\<rparr>)\<rparr>"
    have "wf_world ?w" "repliesMap (r ?w) k = Some e" using wf Some by simp_all
    then have "wf_world (settle k e \<lparr>query = rs_query e, data = Body m, err = None\<rparr> ?w)"
      by (rule wf_settle)
    then show ?thesis
      using listen_route_deliver [OF Some True] wf_entry [OF wf Some] by simp
  qed
qed

lemma wf_body:
  "wf_world w \<Longrightarrow> \<exists>w'. listen_body hdr m w = Inr w' \<and> wf_world w'"
  using wf_route [of w "CorrelationId m" m]
  by (auto simp: listen_body_def Let_def split: option.splits)

lemma wf_fire: "wf_world w \<Longrightarrow> wf_world (timer_fire t w)"
  by (simp add: timer_fire_def)

lemma wf_timer_run: "wf_world w \<Longrightarrow> \<exists>w'. timer_run t w = Inr w' \<and> wf_world w'"
  using wf_clean [of "w\<lparr>timers := (timers w)(t := (timers w t)\<lparr>t_state := TDone\<rparr>)\<rparr>" "t_f (timers w t)"]
  by (simp add: timer_run_def)

lemma wf_step: "wf_world w \<Longrightarrow> \<exists>w'. step hdr e w = Inr w' \<and> wf_world w'"
  by (cases e) (simp_all add: step_def wf_add wf_body wf_fire wf_timer_run)

lemma wf_run: "wf_world w \<Longrightarrow> \<exists>w'. run hdr es w = Inr w' \<and> wf_world w'"
proof (induction es arbitrary: w)
  case Nil
  then show ?case by simp
next
  case (Cons e es)
  from wf_step [OF Cons.prems] obtain w1 where "step hdr e w = Inr w1" "wf_world w1" by blast
  with Cons.IH [of w1] show ?case by simp
qed

lemma reach_wf: "run hdr es (new_world a u t) = Inr w \<Longrightarrow> wf_world w"
  using wf_run [OF wf_new, of hdr es a u t] by simp

subsection \<open>cleanReply\<close>

text \<open>
  C5. In every world the router reaches, \<open>cleanReply correlationId\<close> leaves a world without
  an entry under the id as it is; with an entry it sends the \<open>TimeoutReplyError\<close> value
  (naming the entry's query type) on the entry's channel, which then holds exactly that
  value, closes the channel, removes the key and touches no other channel. A second call
  right after the first changes nothing.
\<close>

theorem cleanReply_once:
  assumes reach: "run hdr es (new_world a u t) = Inr w"
  shows "(repliesMap (r w) cid = None \<longrightarrow> cleanReply cid w = Inr w) \<and>
         (\<forall>e. repliesMap (r w) cid = Some e \<longrightarrow>
            (\<exists>w'. cleanReply cid w = Inr w' \<and>
                  sent (chans w' (rs_ch e)) =
                    [\<lparr>query = '''', data = [],
                      err = Some (TimeoutReplyError (''timeout while waiting for reply '' @ rs_query e))\<rparr>] \<and>
                  closed (chans w' (rs_ch e)) \<and>
                  (\<forall>c. c \<noteq> rs_ch e \<longrightarrow> chans w' c = chans w c) \<and>
                  repliesMap (r w') = (repliesMap (r w))(cid := None) \<and>
                  cleanReply cid w' = Inr w'))"
proof (intro conjI allI impI)
  assume "repliesMap (r w) cid = None"
  then show "cleanReply cid w = Inr w" by (rule cleanReply_None)
next
  fix e assume Some: "repliesMap (r w) cid = Some e"
  note E = wf_entry [OF reach_wf [OF reach] Some]
  let ?w = "settle cid e (timeout_reply (rs_query e)) w"
  have "cleanReply cid w = Inr ?w"
    using cleanReply_Some [OF Some] E by simp
  moreover have "cleanReply cid ?w = Inr ?w"
    by (rule cleanReply_None) (simp add: settle_def)
  ultimately show "\<exists>w'. cleanReply cid w = Inr w' \<and>
                  sent (chans w' (rs_ch e)) =
                    [\<lparr>query = '''', data = [],
                      err = Some (TimeoutReplyError (''timeout while waiting for reply '' @ rs_query e))\<rparr>] \<and>
                  closed (chans w' (rs_ch e)) \<and>
                  (\<forall>c. c \<noteq> rs_ch e \<longrightarrow> chans w' c = chans w c) \<and>
                  repliesMap (r w') = (repliesMap (r w))(cid := None) \<and>
                  cleanReply cid w' = Inr w'"
    using E by (simp add: settle_def timeout_reply_def)
qed

theorem cleanReply_once_witness:
  "run example_hdr [Register ''q'' ''A''] (new_world ''app'' ''uuid'' 1000000000)
     = Inr (example_world [Register ''q'' ''A'']) \<and>
   repliesMap (r (example_world [Register ''q'' ''A''])) ''A''
     = Some \<lparr>rs_query = ''q'', rs_ch = 0, rs_timer = 0\<rparr> \<and>
   repliesMap (r (example_world [Register ''q'' ''A''])) ''B'' = None \<and>
   cleanReply ''B'' (example_world [Register ''q'' ''A'']) = Inr (example_world [Register ''q'' ''A'']) \<and>
   sent (chans (projr (cleanReply ''A'' (example_world [Register ''q'' ''A'']))) 0)
     = [\<lparr>query = '''', data = [],
         err = Some (TimeoutReplyError ''timeout while waiting for reply q'')\<rparr>] \<and>
   repliesMap (r (projr (cleanReply ''A'' (example_world [Register ''q'' ''A''])))) ''A'' = None"
proof -
  have reach: "run example_hdr [Register ''q'' ''A''] (new_world ''app'' ''uuid'' 1000000000)
     = Inr (example_world [Register ''q'' ''A''])"
    by (simp add: op_defs)
  have e: "repliesMap (r (example_world [Register ''q'' ''A''])) ''A''
     = Some \<lparr>rs_query = ''q'', rs_ch = 0, rs_timer = 0\<rparr>"
    by (simp add: op_defs)
  have n: "repliesMap (r (example_world [Register ''q'' ''A''])) ''B'' = None"
    by (simp add: op_defs)
  from cleanReply_once [OF reach, of "''A''"] e
  obtain w' where w': "cleanReply ''A'' (example_world [Register ''q'' ''A'']) = Inr w'"
    "sent (chans w' 0) = [\<lparr>query = '''', data = [],
         err = Some (TimeoutReplyError (''timeout while waiting for reply '' @ ''q''))\<rparr>]"
    "repliesMap (r w') = (repliesMap (r (example_world [Register ''q'' ''A''])))(''A'' := None)"
    by auto
  from cleanReply_once [OF reach, of "''B''"] n
  have "cleanReply ''B'' (example_world [Register ''q'' ''A'']) = Inr (example_world [Register ''q'' ''A''])"
    by simp
  with reach e n w' show ?thesis by simp
qed

subsection \<open>addReplyToListen\<close>

lemma step_router_const:
  "step hdr e w = Inr w' \<Longrightarrow> timeout (r w') = timeout (r w) \<and> router_id (r w') = router_id (r w)"
  by (cases e)
     (auto simp: step_def addReplyToListen_eq listen_body_def listen_route_def timer_Stop_def
        chan_send_def chan_close_def Ack_def map_delete_def timer_fire_def timer_run_def
        cleanReply_def Let_def
      split: option.splits if_splits)

lemma run_router_const:
  "run hdr es w = Inr w' \<Longrightarrow> timeout (r w') = timeout (r w) \<and> router_id (r w') = router_id (r w)"
proof (induction es arbitrary: w)
  case Nil
  then show ?case by simp
next
  case (Cons e es)
  then obtain w1 where s: "step hdr e w = Inr w1" and rest: "run hdr es w1 = Inr w'"
    by (auto split: sum.splits)
  from Cons.IH [OF rest] step_router_const [OF s] show ?case by simp
qed

text \<open>
  C6. In every world the router reaches, \<open>addReplyToListen query correlationId\<close> returns a
  channel that no entry of the table holds, open and empty; it starts a timer that is
  active, runs for the timeout given to \<open>newReplyRouter\<close> and whose function, once the
  timer has fired, is \<open>cleanReply correlationId\<close>; and it stores under \<open>correlationId\<close> the
  entry made of the query type, that channel and that timer.
\<close>

theorem addReplyToListen_registers:
  assumes reach: "run hdr es (new_world a u tmo) = Inr w"
      and add: "addReplyToListen q cid w = (c, w')"
  shows "c = next_chan w \<and>
         (\<forall>k e. repliesMap (r w) k = Some e \<longrightarrow> rs_ch e \<noteq> c) \<and>
         chans w' c = \<lparr>sent = [], closed = False\<rparr> \<and>
         timers w' (next_timer w) = \<lparr>t_state = TActive, t_d = tmo, t_f = cid\<rparr> \<and>
         repliesMap (r w') =
           (repliesMap (r w))(cid \<mapsto> \<lparr>rs_query = q, rs_ch = c, rs_timer = next_timer w\<rparr>) \<and>
         timer_run (next_timer w) (timer_fire (next_timer w) w') =
           cleanReply cid
             (w'\<lparr>timers := (timers w')(next_timer w := (timers w' (next_timer w))\<lparr>t_state := TDone\<rparr>)\<rparr>)"
proof -
  have tm: "timeout (r w) = tmo"
    using run_router_const [OF reach] by (simp add: new_world_def init_world_def newReplyRouter_def)
  have fresh: "rs_ch e \<noteq> next_chan w" if "repliesMap (r w) k = Some e" for k e
    using wf_entry [OF reach_wf [OF reach] that] by simp
  from add have c: "c = next_chan w"
    by (auto simp: addReplyToListen_eq)
  from add have w': "w' = snd (addReplyToListen q cid w)"
    by simp
  show ?thesis
    using fresh tm unfolding c w'
    by (simp add: addReplyToListen_eq timer_run_def timer_fire_def)
qed

theorem addReplyToListen_registers_witness:
  "run example_hdr [Register ''q'' ''A''] (new_world ''app'' ''uuid'' 1000000000)
     = Inr (example_world [Register ''q'' ''A'']) \<and>
   fst (addReplyToListen ''p'' ''B'' (example_world [Register ''q'' ''A''])) = 1 \<and>
   repliesMap (r (example_world [Register ''q'' ''A''])) ''A''
     = Some \<lparr>rs_query = ''q'', rs_ch = 0, rs_timer = 0\<rparr> \<and>
   repliesMap (r (snd (addReplyToListen ''p'' ''B'' (example_world [Register ''q'' ''A''])))) ''B''
     = Some \<lparr>rs_query = ''p'', rs_ch = 1, rs_timer = 1\<rparr> \<and>
   timers (snd (addReplyToListen ''p'' ''B'' (example_world [Register ''q'' ''A'']))) 1
     = \<lparr>t_state = TActive, t_d = 1000000000, t_f = ''B''\<rparr>"
proof -
  have reach: "run example_hdr [Register ''q'' ''A''] (new_world ''app'' ''uuid'' 1000000000)
     = Inr (example_world [Register ''q'' ''A''])"
    by (simp add: op_defs)
  have nc: "next_chan (example_world [Register ''q'' ''A'']) = 1"
   and nt: "next_timer (example_world [Register ''q'' ''A'']) = 1"
   and e: "repliesMap (r (example_world [Register ''q'' ''A''])) ''A''
     = Some \<lparr>rs_query = ''q'', rs_ch = 0, rs_timer = 0\<rparr>"
    by (simp_all add: op_defs)
  have add: "addReplyToListen ''p'' ''B'' (example_world [Register ''q'' ''A''])
     = (fst (addReplyToListen ''p'' ''B'' (example_world [Register ''q'' ''A''])),
        snd (addReplyToListen ''p'' ''B'' (example_world [Register ''q'' ''A''])))"
    by simp
  from addReplyToListen_registers [OF reach add] nc nt e reach
  show ?thesis by simp
qed

subsection \<open>The consumer loop\<close>

text \<open>
  C3. When a delivery reaches the lookup, finds an entry, and \<open>timer.Stop()\<close> on the
  entry's timer returns false, the iteration only acknowledges the message: no channel
  gets a value or is closed, and the table and the timers stay as they were.
\<close>

theorem late_reply_dropped:
  assumes "has_corrId hdr m"
      and "repliesMap (r w) (CorrelationId m) = Some e"
      and "\<not> fst (timer_Stop (rs_timer e) w)"
  shows "\<exists>w'. listen_body hdr m w = Inr w' \<and> chans w' = chans w \<and> r w' = r w \<and>
              timers w' = timers w \<and> acks w' = acks w @ [m]"
  using assms
  by (simp add: listen_body_route listen_route_def timer_Stop_def Ack_def split: if_splits)

theorem late_reply_dropped_witness:
  "has_corrId example_hdr \<lparr>CorrelationId = ''A'', Headers = [], Body = [1]\<rparr> \<and>
   repliesMap (r (example_world [Register ''q'' ''A'', Fire 0])) ''A''
     = Some \<lparr>rs_query = ''q'', rs_ch = 0, rs_timer = 0\<rparr> \<and>
   \<not> fst (timer_Stop 0 (example_world [Register ''q'' ''A'', Fire 0])) \<and>
   sent (chans (projr (listen_body example_hdr \<lparr>CorrelationId = ''A'', Headers = [], Body = [1]\<rparr>
           (example_world [Register ''q'' ''A'', Fire 0]))) 0) = [] \<and>
   acks (projr (listen_body example_hdr \<lparr>CorrelationId = ''A'', Headers = [], Body = [1]\<rparr>
           (example_world [Register ''q'' ''A'', Fire 0])))
     = [\<lparr>CorrelationId = ''A'', Headers = [], Body = [1]\<rparr>]"
proof -
  let ?m = "\<lparr>CorrelationId = ''A'', Headers = [], Body = [1::byte]\<rparr>"
  let ?w = "example_world [Register ''q'' ''A'', Fire 0]"
  have h: "has_corrId example_hdr ?m" by (simp add: has_corrId_def)
  have e: "repliesMap (r ?w) (CorrelationId ?m) = Some \<lparr>rs_query = ''q'', rs_ch = 0, rs_timer = 0\<rparr>"
    by (simp add: op_defs)
  have s: "\<not> fst (timer_Stop (rs_timer \<lparr>rs_query = ''q'', rs_ch = 0, rs_timer = 0\<rparr>) ?w)"
    by (simp add: op_defs)
  have c: "sent (chans ?w 0) = []" and a: "acks ?w = []"
    by (simp_all add: op_defs)
  from late_reply_dropped [OF h e s] obtain w' where
    "listen_body example_hdr ?m ?w = Inr w'" "chans w' = chans ?w" "acks w' = acks ?w @ [?m]"
    by blast
  with h e s c a show ?thesis by simp
qed

text \<open>
  C4. In every world the router reaches, when a delivery reaches the lookup, finds an
  entry, and \<open>timer.Stop()\<close> on the entry's timer returns true, the iteration sends on the
  entry's channel the reply made of the registered query type, the message body and a nil
  error, which is then the only value on that channel, closes the channel, removes the
  key from the table and acknowledges the message.
\<close>

theorem reply_delivered:
  assumes reach: "run hdr es (new_world a u tmo) = Inr w"
      and h: "has_corrId hdr m"
      and Some: "repliesMap (r w) (CorrelationId m) = Some e"
      and stop: "fst (timer_Stop (rs_timer e) w)"
  shows "\<exists>w'. listen_body hdr m w = Inr w' \<and>
              sent (chans w' (rs_ch e)) = [\<lparr>query = rs_query e, data = Body m, err = None\<rparr>] \<and>
              closed (chans w' (rs_ch e)) \<and>
              repliesMap (r w') = (repliesMap (r w))(CorrelationId m := None) \<and>
              repliesMap (r w') (CorrelationId m) = None \<and>
              t_state (timers w' (rs_timer e)) = TStopped \<and>
              acks w' = acks w @ [m]"
proof -
  note E = wf_entry [OF reach_wf [OF reach] Some]
  from stop have act: "t_state (timers w (rs_timer e)) = TActive"
    by (simp add: timer_Stop_def split: if_splits)
  from E have op: "\<not> closed (chans w (rs_ch e))" by simp
  show ?thesis
    unfolding listen_body_route [OF h] listen_route_deliver [OF Some act op]
    using E by (simp add: settle_def Ack_def)
qed

theorem reply_delivered_witness:
  "run example_hdr [Register ''q'' ''A''] (new_world ''app'' ''uuid'' 1000000000)
     = Inr (example_world [Register ''q'' ''A'']) \<and>
   has_corrId example_hdr \<lparr>CorrelationId = ''A'', Headers = [], Body = [7]\<rparr> \<and>
   repliesMap (r (example_world [Register ''q'' ''A''])) ''A''
     = Some \<lparr>rs_query = ''q'', rs_ch = 0, rs_timer = 0\<rparr> \<and>
   fst (timer_Stop 0 (example_world [Register ''q'' ''A''])) \<and>
   sent (chans (projr (listen_body example_hdr \<lparr>CorrelationId = ''A'', Headers = [], Body = [7]\<rparr>
           (example_world [Register ''q'' ''A'']))) 0)
     = [\<lparr>query = ''q'', data = [7], err = None\<rparr>] \<and>
   repliesMap (r (projr (listen_body example_hdr \<lparr>CorrelationId = ''A'', Headers = [], Body = [7]\<rparr>
           (example_world [Register ''q'' ''A''])))) ''A'' = None"
proof -
  let ?m = "\<lparr>CorrelationId = ''A'', Headers = [], Body = [7::byte]\<rparr>"
  let ?w = "example_world [Register ''q'' ''A'']"
  let ?e = "\<lparr>rs_query = ''q'', rs_ch = 0, rs_timer = 0\<rparr>"
  have reach: "run example_hdr [Register ''q'' ''A''] (new_world ''app'' ''uuid'' 1000000000) = Inr ?w"
    by (simp add: op_defs)
  have h: "has_corrId example_hdr ?m" by (simp add: has_corrId_def)
  have e: "repliesMap (r ?w) (CorrelationId ?m) = Some ?e"
    by (simp add: op_defs)
  have s: "fst (timer_Stop (rs_timer ?e) ?w)"
    by (simp add: op_defs)
  from reply_delivered [OF reach h e s] obtain w' where
    "listen_body example_hdr ?m ?w = Inr w'"
    "sent (chans w' (rs_ch ?e)) = [\<lparr>query = rs_query ?e, data = Body ?m, err = None\<rparr>]"
    "repliesMap (r w') (CorrelationId ?m) = None"
    by blast
  with reach h e s show ?thesis by simp
qed

text \<open>
  C2. A delivery with an empty \<open>CorrelationId\<close> field and the header set to \<open>abc\<close> meets a
  table with a pending entry under \<open>abc\<close>: the iteration ends with the world as it was,
  the entry still pending and nothing on its channel. The same delivery meeting an entry
  registered under the empty string is delivered to that entry: the lookup reads the
  empty field, not the header.
\<close>

theorem header_corrId_not_looked_up:
  "listen_body example_hdr
     \<lparr>CorrelationId = '''', Headers = [(example_hdr, VString ''abc'')], Body = [7]\<rparr>
     (example_world [Register ''q'' ''abc''])
     = Inr (example_world [Register ''q'' ''abc'']) \<and>
   repliesMap (r (example_world [Register ''q'' ''abc''])) ''abc''
     = Some \<lparr>rs_query = ''q'', rs_ch = 0, rs_timer = 0\<rparr> \<and>
   sent (chans (example_world [Register ''q'' ''abc'']) 0) = [] \<and>
   acks (example_world [Register ''q'' ''abc'']) = [] \<and>
   sent (chans (projr (listen_body example_hdr
     \<lparr>CorrelationId = '''', Headers = [(example_hdr, VString ''abc'')], Body = [7]\<rparr>
     (example_world [Register ''q'' '''']))) 0)
     = [\<lparr>query = ''q'', data = [7], err = None\<rparr>]"
  by (simp add: op_defs)


subsection \<open>newReplyRouter and the broker set-up of listen\<close>

text \<open>
  C8. \<open>newReplyRouter\<close> logs a warning exactly when the timeout, read as a signed 64-bit
  number of nanoseconds, is below 500 000 000; the identity of the router is the
  application name, a dot and the UUID. When the broker channel opens, the first broker
  call of \<open>listen\<close> declares the queue named by that identity (durable, exclusive), and
  when the declaration succeeds the second call binds the declared queue to the reply
  exchange with that identity as the routing key.
\<close>

theorem router_identity:
  "(fst (newReplyRouter appName uuid tmo) \<noteq> [] \<longleftrightarrow> sint tmo < 500000000) \<and>
   router_id (snd (newReplyRouter appName uuid tmo)) = appName @ ''.'' @ uuid \<and>
   (on_Channel b = None \<longrightarrow>
      take 1 (fst (listen ex b (snd (newReplyRouter appName uuid tmo))))
        = [QueueDeclare (appName @ ''.'' @ uuid) True False True False] \<and>
      (\<forall>n. on_QueueDeclare b (appName @ ''.'' @ uuid) = Inr n \<longrightarrow>
         take 2 (fst (listen ex b (snd (newReplyRouter appName uuid tmo))))
           = [QueueDeclare (appName @ ''.'' @ uuid) True False True False,
              QueueBind n (appName @ ''.'' @ uuid) ex False]))"
  by (auto simp: newReplyRouter_def Millisecond_def word_sless_alt listen_def failOnError_def Let_def
      split: sum.splits option.splits)

theorem router_identity_witness:
  "on_Channel \<lparr>on_Channel = None, on_QueueDeclare = Inr, on_QueueBind = None,
               on_Qos = None, on_Consume = None\<rparr> = None \<and>
   on_QueueDeclare \<lparr>on_Channel = None, on_QueueDeclare = Inr, on_QueueBind = None,
               on_Qos = None, on_Consume = None\<rparr> ''app.uuid'' = Inr ''app.uuid'' \<and>
   fst (newReplyRouter ''app'' ''uuid'' 499999999) \<noteq> [] \<and>
   fst (newReplyRouter ''app'' ''uuid'' 500000000) = [] \<and>
   take 2 (fst (listen ''globalReply''
       \<lparr>on_Channel = None, on_QueueDeclare = Inr, on_QueueBind = None,
        on_Qos = None, on_Consume = None\<rparr>
       (snd (newReplyRouter ''app'' ''uuid'' 500000000))))
     = [QueueDeclare ''app.uuid'' True False True False,
        QueueBind ''app.uuid'' ''app.uuid'' ''globalReply'' False]"
proof -
  let ?b = "\<lparr>on_Channel = None, on_QueueDeclare = Inr, on_QueueBind = None,
             on_Qos = None, on_Consume = None\<rparr> :: broker"
  have c: "on_Channel ?b = None" by simp
  have d: "on_QueueDeclare ?b (''app'' @ ''.'' @ ''uuid'') = Inr ''app.uuid''" by simp
  have lo: "sint (499999999 :: Duration) < 500000000" by simp
  have hi: "\<not> sint (500000000 :: Duration) < 500000000" by simp
  from router_identity [of "''app''" "''uuid''" 499999999 ?b "''globalReply''"] lo
  have 1: "fst (newReplyRouter ''app'' ''uuid'' 499999999) \<noteq> []" by blast
  from router_identity [of "''app''" "''uuid''" 500000000 ?b "''globalReply''"] hi c d
  have 2: "fst (newReplyRouter ''app'' ''uuid'' 500000000) = []"
    and 3: "take 2 (fst (listen ''globalReply'' ?b (snd (newReplyRouter ''app'' ''uuid'' 500000000))))
     = [QueueDeclare (''app'' @ ''.'' @ ''uuid'') True False True False,
        QueueBind ''app.uuid'' (''app'' @ ''.'' @ ''uuid'') ''globalReply'' False]"
    by blast+
  from 1 2 3 c d show ?thesis by simp
qed

subsection \<open>Channels the table no longer refers to\<close>

lemma idle_timers [simp]: "idle c t (w\<lparr>timers := T\<rparr>) = idle c t w"
  by (simp add: idle_def)

lemma idle_Ack [simp]: "idle c t (Ack m w) = idle c t w"
  by (simp add: idle_def Ack_def)

lemma chans_Ack [simp]: "chans (Ack m w) = chans w"
  by (simp add: Ack_def)

lemma idle_add: "idle c t w \<Longrightarrow> idle c t (snd (addReplyToListen q k w)) \<and> chans (snd (addReplyToListen q k w)) c = chans w c"
  by (auto simp: idle_def addReplyToListen_eq)

lemma idle_settle: "idle c t w \<Longrightarrow> repliesMap (r w) k = Some e \<Longrightarrow>
   idle c t (settle k e v w) \<and> chans (settle k e v w) c = chans w c"
  by (auto simp: idle_def settle_def)

lemma idle_clean:
  assumes wf: "wf_world w" and i: "idle c t w" and s: "cleanReply k w = Inr w'"
  shows "idle c t w' \<and> chans w' c = chans w c"
proof (cases "repliesMap (r w) k")
  case None
  with s i show ?thesis by (simp add: cleanReply_None)
next
  case (Some e)
  with s wf_entry [OF wf Some] have "w' = settle k e (timeout_reply (rs_query e)) w"
    by (simp add: cleanReply_Some)
  with idle_settle [OF i Some] show ?thesis by simp
qed

lemma idle_route:
  assumes wf: "wf_world w" and i: "idle c t w" and s: "listen_route k m w = Inr w'"
  shows "idle c t w' \<and> chans w' c = chans w c"
proof (cases "repliesMap (r w) k")
  case None
  with s i show ?thesis by (simp add: listen_route_None)
next
  case (Some e)
  show ?thesis
  proof (cases "t_state (timers w (rs_timer e)) = TActive")
    case False
    with s i Some show ?thesis by (auto simp: listen_route_late)
  next
    case True
    let ?w = "w\<lparr>timers := (timers w)(rs_timer e := (timers w (rs_timer e))\<lparr>t_state := TStopped\<rparr>)\<rparr>"
    have "idle c t ?w" "repliesMap (r ?w) k = Some e" using i Some by simp_all
    from idle_settle [OF this] s listen_route_deliver [OF Some True] wf_entry [OF wf Some]
    show ?thesis by auto
  qed
qed

lemma idle_body:
  "wf_world w \<Longrightarrow> idle c t w \<Longrightarrow> listen_body hdr m w = Inr w' \<Longrightarrow> idle c t w' \<and> chans w' c = chans w c"
  using idle_route [of w c t "CorrelationId m" m w']
  by (auto simp: listen_body_def Let_def split: option.splits if_splits)

lemma idle_step:
  assumes wf: "wf_world w" and i: "idle c t w" and s: "step hdr ev w = Inr w'"
  shows "idle c t w' \<and> chans w' c = chans w c"
proof (cases ev)
  case (Register q k)
  with s idle_add [OF i, of q k] show ?thesis by (auto simp: step_def)
next
  case (Deliver m)
  with s idle_body [OF wf i] show ?thesis by (simp add: step_def)
next
  case (Fire t')
  with s i show ?thesis by (auto simp: step_def timer_fire_def)
next
  case (Callback t')
  let ?w = "w\<lparr>timers := (timers w)(t' := (timers w t')\<lparr>t_state := TDone\<rparr>)\<rparr>"
  have "wf_world ?w" "idle c t ?w" using wf i by simp_all
  from idle_clean [OF this, of "t_f (timers w t')" w'] Callback s i
  show ?thesis by (auto simp: step_def timer_run_def split: if_splits)
qed

lemma idle_run:
  "wf_world w \<Longrightarrow> idle c t w \<Longrightarrow>
   \<exists>w'. run hdr es w = Inr w' \<and> wf_world w' \<and> idle c t w' \<and> chans w' c = chans w c"
proof (induction es arbitrary: w)
  case Nil
  then show ?case by simp
next
  case (Cons e es)
  from wf_step [OF Cons.prems(1)] obtain w1 where s: "step hdr e w = Inr w1" and wf1: "wf_world w1"
    by blast
  from idle_step [OF Cons.prems s] have i1: "idle c t w1" and c1: "chans w1 c = chans w c" by simp_all
  from Cons.IH [OF wf1 i1] s c1 show ?case by simp
qed

subsection \<open>The life of one registration\<close>




lemma pending_Ack [simp]: "pending q cid c t (Ack m w) = pending q cid c t w"
  by (simp add: pending_def Ack_def)

lemma r_Ack [simp]: "r (Ack m w) = r w"
  by (simp add: Ack_def)

lemma settled_Ack [simp]: "settled q c t (Ack m w) = settled q c t w"
  by (simp add: settled_def)

lemma settled_timers [simp]: "settled q c t (w\<lparr>timers := T\<rparr>) = settled q c t w"
  by (simp add: settled_def)







text \<open>
  C10. In every world the router reaches, two calls of \<open>addReplyToListen\<close> with the same
  correlation id return different channels; after the second call the table holds the
  second entry under the id, the first channel is open and the first timer still active;
  and whatever steps follow, no step panics, nothing is ever sent on the first channel
  and it is never closed.
\<close>

theorem duplicate_registration_orphans_first:
  assumes reach: "run hdr es0 (new_world a u tmo) = Inr w0"
      and first: "addReplyToListen q1 cid w0 = (c1, w1)"
      and second: "addReplyToListen q2 cid w1 = (c2, w2)"
  shows "c2 \<noteq> c1 \<and>
         repliesMap (r w2) cid = Some \<lparr>rs_query = q2, rs_ch = c2, rs_timer = Suc (next_timer w0)\<rparr> \<and>
         \<not> closed (chans w2 c1) \<and>
         t_state (timers w2 (next_timer w0)) = TActive \<and>
         (\<forall>es. \<exists>w3. run hdr es w2 = Inr w3 \<and> sent (chans w3 c1) = [] \<and> \<not> closed (chans w3 c1))"
proof -
  note wf0 = reach_wf [OF reach]
  from first have c1: "c1 = next_chan w0" and w1: "w1 = snd (addReplyToListen q1 cid w0)"
    by (auto simp: addReplyToListen_eq)
  from second have c2: "c2 = next_chan w1" and w2: "w2 = snd (addReplyToListen q2 cid w1)"
    by (auto simp: addReplyToListen_eq)
  have wf2: "wf_world w2"
    unfolding w2 w1 by (intro wf_add wf0)
  have old: "rs_ch e < next_chan w0 \<and> rs_timer e < next_timer w0"
    if "repliesMap (r w0) k = Some e" for k e
    using wf_entry [OF wf0 that] by simp
  have ent: "rs_ch e \<noteq> next_chan w0 \<and> rs_timer e \<noteq> next_timer w0"
    if "repliesMap (r w2) k = Some e" for k e
    using that old [of k e] unfolding w2 w1
    by (auto simp: addReplyToListen_eq split: if_splits)
  have bnd: "next_chan w0 < next_chan w2" "next_timer w0 < next_timer w2"
    unfolding w2 w1 by (simp_all add: addReplyToListen_eq)
  have idle: "idle c1 (next_timer w0) w2"
    unfolding idle_def c1 using ent bnd by blast
  have ch: "chans w2 c1 = \<lparr>sent = [], closed = False\<rparr>"
    unfolding w2 w1 c1 by (simp add: addReplyToListen_eq)
  have later: "\<exists>w3. run hdr es w2 = Inr w3 \<and> sent (chans w3 c1) = [] \<and> \<not> closed (chans w3 c1)" for es
    using idle_run [OF wf2 idle, of hdr es] ch by auto
  have now: "c2 \<noteq> c1 \<and>
         repliesMap (r w2) cid = Some \<lparr>rs_query = q2, rs_ch = c2, rs_timer = Suc (next_timer w0)\<rparr> \<and>
         \<not> closed (chans w2 c1) \<and> t_state (timers w2 (next_timer w0)) = TActive"
    unfolding c2 w2 w1 c1 by (simp add: addReplyToListen_eq)
  from now later show ?thesis by blast
qed

theorem duplicate_registration_orphans_first_witness:
  "run example_hdr [] (new_world ''app'' ''uuid'' 1000000000) = Inr (example_world []) \<and>
   fst (addReplyToListen ''q'' ''A'' (example_world [])) = 0 \<and>
   fst (addReplyToListen ''p'' ''A'' (snd (addReplyToListen ''q'' ''A'' (example_world [])))) = 1 \<and>
   sent (chans (projr (run example_hdr
       [Deliver \<lparr>CorrelationId = ''A'', Headers = [], Body = [7]\<rparr>, Fire 0, Callback 0, Fire 1, Callback 1]
       (snd (addReplyToListen ''p'' ''A'' (snd (addReplyToListen ''q'' ''A'' (example_world []))))))) 0) = []"
proof -
  let ?w0 = "example_world []"
  let ?w1 = "snd (addReplyToListen ''q'' ''A'' ?w0)"
  let ?w2 = "snd (addReplyToListen ''p'' ''A'' ?w1)"
  let ?es = "[Deliver \<lparr>CorrelationId = ''A'', Headers = [], Body = [7]\<rparr>, Fire 0, Callback 0, Fire 1, Callback 1]"
  have reach: "run example_hdr [] (new_world ''app'' ''uuid'' 1000000000) = Inr ?w0"
    by (simp add: example_world_def)
  have n0: "next_chan ?w0 = 0"
    by (simp add: op_defs)
  have first: "addReplyToListen ''q'' ''A'' ?w0 = (0, ?w1)"
    using n0 by (simp add: addReplyToListen_eq)
  have second: "addReplyToListen ''p'' ''A'' ?w1 = (1, ?w2)"
    using n0 by (simp add: addReplyToListen_eq)
  have f1: "fst (addReplyToListen ''q'' ''A'' ?w0) = 0"
    using n0 by (simp add: addReplyToListen_eq)
  have f2: "fst (addReplyToListen ''p'' ''A'' ?w1) = 1"
    using n0 by (simp add: addReplyToListen_eq)
  from duplicate_registration_orphans_first [OF reach first second]
  obtain w3 where "run example_hdr ?es ?w2 = Inr w3" "sent (chans w3 0) = []"
    by blast
  then have f3: "sent (chans (projr (run example_hdr ?es ?w2)) 0) = []"
    by simp
  from reach f1 f2 f3 show ?thesis by blast
qed




end
